theory Spec2Isabelle
  imports Complex_Main
begin

section \<open>Data model of monitor.py\<close>

text \<open>
  The dataclass \<^verbatim>\<open>Momentum\<close>. Python's \<^verbatim>\<open>int\<close> is unbounded, so \<open>height\<close> is an
  \<open>int\<close>; \<^verbatim>\<open>time.time()\<close> readings are idealised as real numbers.
\<close>

record Momentum =
  height :: int
  hash :: string
  timestamp :: real
  is_stale :: bool

text \<open>
  The transport handle held by a node. The only thing the monitor ever reads from it is
  its \<^verbatim>\<open>closed\<close> attribute.
\<close>

record WebSocket =
  ws_closed :: bool

text \<open>The dataclass \<^verbatim>\<open>NodeState\<close>, with the field types of its annotations.\<close>

record NodeState =
  websocket :: "WebSocket option"
  subscription_id :: "string option"
  last_height :: "int option"
  last_hash :: "string option"
  is_connected :: bool
  last_message_time :: real
  momentums :: "Momentum list"

text \<open>\<^verbatim>\<open>NodeState()\<close>: every field at its default.\<close>

definition NodeState_init :: NodeState where
  "NodeState_init =
     \<lparr>websocket = None, subscription_id = None, last_height = None, last_hash = None,
      is_connected = False, last_message_time = 0, momentums = []\<rparr>"

text \<open>
  \<^verbatim>\<open>self.nodes\<close> is a dict from node name to \<^verbatim>\<open>NodeState\<close>; it is kept as an
  association list in insertion order, which is the order \<^verbatim>\<open>values()\<close> and
  \<^verbatim>\<open>items()\<close> iterate in.
\<close>

type_synonym registry = "(string \<times> NodeState) list"

text \<open>The registry built by \<^verbatim>\<open>ForkMonitor.__init__\<close>.\<close>

definition ForkMonitor_init :: registry where
  "ForkMonitor_init =
     [(''hc1'', NodeState_init), (''zenonhub'', NodeState_init), (''atsocy'', NodeState_init)]"

text \<open>\<^verbatim>\<open>Config.MESSAGE_TIMEOUT\<close>.\<close>

definition MESSAGE_TIMEOUT :: real where
  "MESSAGE_TIMEOUT = 30"

text \<open>The exceptions that the modelled code can meet.\<close>

datatype exn =
  ConnectionClosed | TimeoutError | JSONDecodeError | TypeError | KeyError | IndexError
  | AttributeError | OtherError

section \<open>Fork detection\<close>

text \<open>
  \<^verbatim>\<open>check_for_fork\<close> returns nothing; what it decides is what it logs. Each group of
  log statements is one constructor, carrying the values interpolated into the messages:
  \<^item> \<open>Incomplete disconnected\<close>: the warning "Lost Connection - One or more nodes are
    disconnected";
  \<^item> \<open>Incomplete no_data\<close>: the info line "Waiting for data from all nodes...";
  \<^item> \<open>Incomplete (height_mismatch hs)\<close>: "Nodes are at different heights, waiting for
    sync:" followed by one line per node with its height;
  \<^item> \<open>Consensus h x\<close>: the info line "Height: h, Hash: x";
  \<^item> \<open>Fork rows\<close>: the warning "Fork detected! Node status:" followed by one line per
    node with its height and hash.
\<close>

datatype reason =
  disconnected | no_data | height_mismatch "(string \<times> int option) list"

datatype decision =
  Incomplete reason
  | Consensus "int option" "string option"
  | Fork "(string \<times> int option \<times> string option) list"

text \<open>
  The method reads \<^verbatim>\<open>self.nodes\<close> and assigns to nothing; the registry is threaded
  through and returned as the method leaves it. \<^verbatim>\<open>self.nodes['hc1']\<close> raises
  \<^verbatim>\<open>KeyError\<close> on a registry without that key.
\<close>

definition check_for_fork :: "registry \<Rightarrow> (exn + decision) \<times> registry" where
  "check_for_fork nodes =
     (if \<not> list_all (\<lambda>node. is_connected node) (map snd nodes) then
        (Inr (Incomplete disconnected), nodes)
      else if list_ex (\<lambda>node. last_height node = None \<or> last_hash node = None) (map snd nodes) then
        (Inr (Incomplete no_data), nodes)
      else
        let heights = map (\<lambda>(node_name, node). (node_name, last_height node)) nodes in
        if card (set (map snd heights)) > 1 then
          (Inr (Incomplete (height_mismatch heights)), nodes)
        else
          (case map_of nodes ''hc1'' of
             None \<Rightarrow> (Inl KeyError, nodes)
           | Some hc1 \<Rightarrow>
               let reference_height = last_height hc1;
                   reference_hash = last_hash hc1;
                   all_same = list_all (\<lambda>node. last_hash node = reference_hash) (map snd nodes)
               in if all_same then
                    (Inr (Consensus reference_height reference_hash), nodes)
                  else
                    (Inr (Fork (map (\<lambda>(node_name, node).
                                   (node_name, last_height node, last_hash node)) nodes)),
                     nodes)))"

text \<open>
  The variant of the decision procedure that the design describes: "pick one node's
  lastHash as reference". It differs from \<open>check_for_fork\<close> only in taking the
  reference node's name as a parameter instead of the fixed \<^verbatim>\<open>'hc1'\<close>.
\<close>

definition check_for_fork_with_reference ::
    "string \<Rightarrow> registry \<Rightarrow> (exn + decision) \<times> registry" where
  "check_for_fork_with_reference reference nodes =
     (if \<not> list_all (\<lambda>node. is_connected node) (map snd nodes) then
        (Inr (Incomplete disconnected), nodes)
      else if list_ex (\<lambda>node. last_height node = None \<or> last_hash node = None) (map snd nodes) then
        (Inr (Incomplete no_data), nodes)
      else
        let heights = map (\<lambda>(node_name, node). (node_name, last_height node)) nodes in
        if card (set (map snd heights)) > 1 then
          (Inr (Incomplete (height_mismatch heights)), nodes)
        else
          (case map_of nodes reference of
             None \<Rightarrow> (Inl KeyError, nodes)
           | Some ref_node \<Rightarrow>
               if list_all (\<lambda>node. last_hash node = last_hash ref_node) (map snd nodes) then
                 (Inr (Consensus (last_height ref_node) (last_hash ref_node)), nodes)
               else
                 (Inr (Fork (map (\<lambda>(node_name, node).
                                (node_name, last_height node, last_hash node)) nodes)),
                  nodes)))"

section \<open>Per-node operations\<close>

text \<open>
  What a method does besides changing the registry: log records (level and message
  template, interpolated values left out), the decision logged by \<open>check_for_fork\<close>,
  closing a transport handle, and sleeping.
\<close>

datatype level = INFO | WARNING | ERROR

datatype effect =
  Log level string
  | Decision decision
  | Close WebSocket
  | Sleep nat

text \<open>
  The methods below take \<^verbatim>\<open>node_name\<close>, look up \<^verbatim>\<open>self.nodes[node_name]\<close> and touch
  no other entry. They are modelled on the state of that node; \<open>upd_node\<close> puts the
  result back under its key.
\<close>

definition upd_node :: "string \<Rightarrow> (NodeState \<Rightarrow> NodeState) \<Rightarrow> registry \<Rightarrow> registry" where
  "upd_node node_name f nodes =
     map (\<lambda>(k, node). if k = node_name then (k, f node) else (k, node)) nodes"

text \<open>
  \<^verbatim>\<open>update_momentums\<close>: append, then keep \<^verbatim>\<open>node.momentums[-5:]\<close> when the list has
  grown beyond five. \<open>now\<close> is the reading of \<^verbatim>\<open>time.time()\<close>. Between the append and
  the slice the Python list holds up to six entries; no \<^verbatim>\<open>await\<close> lies between the two
  statements, so the model takes them as one step.
\<close>

definition update_momentums :: "int \<Rightarrow> string \<Rightarrow> real \<Rightarrow> NodeState \<Rightarrow> NodeState" where
  "update_momentums h x now node =
     (let appended = momentums node @ [\<lparr>height = h, hash = x, timestamp = now, is_stale = False\<rparr>]
      in if length appended > 5
         then node\<lparr>momentums := drop (length appended - 5) appended\<rparr>
         else node\<lparr>momentums := appended\<rparr>)"

text \<open>
  \<^verbatim>\<open>handle_disconnection\<close>. The handle is closed when there is one and its
  \<^verbatim>\<open>closed\<close> attribute is false; the closing is returned as an effect, since the node
  no longer refers to the handle afterwards.
\<close>

definition handle_disconnection :: "NodeState \<Rightarrow> effect list \<times> NodeState" where
  "handle_disconnection node =
     ((case websocket node of
         None \<Rightarrow> []
       | Some w \<Rightarrow> if \<not> ws_closed w then [Close w] else []),
      node\<lparr>is_connected := False,
           subscription_id := None,
           websocket := None,
           momentums := map (\<lambda>momentum. momentum\<lparr>is_stale := True\<rparr>) (momentums node)\<rparr>)"

text \<open>\<^verbatim>\<open>check_connection_health\<close>; \<open>current_time\<close> is the reading of \<^verbatim>\<open>time.time()\<close>.\<close>

definition check_connection_health :: "real \<Rightarrow> NodeState \<Rightarrow> effect list \<times> NodeState" where
  "check_connection_health current_time node =
     (if \<not> is_connected node then ([], node)
      else if current_time - last_message_time node > MESSAGE_TIMEOUT then
        (let (closes, node') = handle_disconnection node
         in (Log WARNING ''No messages received from {node_name} node for {timeout} seconds.''
               # closes, node'))
      else ([], node))"

section \<open>Inbound messages\<close>

text \<open>
  The values \<^verbatim>\<open>json.loads\<close> returns. An object is an association list with distinct
  keys; \<^verbatim>\<open>None\<close> is \<open>JNull\<close>.
\<close>

datatype json =
  JNull | JBool bool | JInt int | JFloat real | JStr string
  | JArr "json list" | JObj "(string \<times> json) list"

text \<open>
  A received frame is represented by what \<^verbatim>\<open>json.loads\<close> makes of it: a value, or
  \<^verbatim>\<open>JSONDecodeError\<close> for text that is not JSON.
\<close>

datatype frame = NotJson | Encodes json

definition json_loads :: "frame \<Rightarrow> exn + json" where
  "json_loads fr = (case fr of NotJson \<Rightarrow> Inl JSONDecodeError | Encodes v \<Rightarrow> Inr v)"

text \<open>\<^verbatim>\<open>k in s\<close> on two strings: \<open>k\<close> occurs in \<open>s\<close> as a contiguous piece.\<close>

fun py_str_contains :: "string \<Rightarrow> string \<Rightarrow> bool" where
  "py_str_contains k [] = (k = [])"
| "py_str_contains k (c # s) = (take (length k) (c # s) = k \<or> py_str_contains k s)"

text \<open>
  \<^verbatim>\<open>k in v\<close> for a string \<open>k\<close>: key membership on a dict, element membership on a
  list, substring on a string, \<^verbatim>\<open>TypeError\<close> on anything else.
\<close>

fun py_in :: "string \<Rightarrow> json \<Rightarrow> exn + bool" where
  "py_in k (JObj kvs) = Inr (k \<in> set (map fst kvs))"
| "py_in k (JArr vs) = Inr (JStr k \<in> set vs)"
| "py_in k (JStr s) = Inr (py_str_contains k s)"
| "py_in k JNull = Inl TypeError"
| "py_in k (JBool b) = Inl TypeError"
| "py_in k (JInt i) = Inl TypeError"
| "py_in k (JFloat r) = Inl TypeError"

text \<open>\<^verbatim>\<open>v[k]\<close> for a string \<open>k\<close>: only a dict can be subscripted by a string.\<close>

fun py_getitem :: "json \<Rightarrow> string \<Rightarrow> exn + json" where
  "py_getitem (JObj kvs) k = (case map_of kvs k of None \<Rightarrow> Inl KeyError | Some v \<Rightarrow> Inr v)"
| "py_getitem (JArr vs) k = Inl TypeError"
| "py_getitem (JStr s) k = Inl TypeError"
| "py_getitem JNull k = Inl TypeError"
| "py_getitem (JBool b) k = Inl TypeError"
| "py_getitem (JInt i) k = Inl TypeError"
| "py_getitem (JFloat r) k = Inl TypeError"

text \<open>
  \<^verbatim>\<open>v[0]\<close>: the first element of a list or the first character of a string
  (\<^verbatim>\<open>IndexError\<close> when empty); a dict decoded from JSON has only string keys, so
  \<^verbatim>\<open>KeyError\<close>.
\<close>

fun py_getitem0 :: "json \<Rightarrow> exn + json" where
  "py_getitem0 (JArr []) = Inl IndexError"
| "py_getitem0 (JArr (v # vs)) = Inr v"
| "py_getitem0 (JStr []) = Inl IndexError"
| "py_getitem0 (JStr (c # s)) = Inr (JStr [c])"
| "py_getitem0 (JObj kvs) = Inl KeyError"
| "py_getitem0 JNull = Inl TypeError"
| "py_getitem0 (JBool b) = Inl TypeError"
| "py_getitem0 (JInt i) = Inl TypeError"
| "py_getitem0 (JFloat r) = Inl TypeError"

text \<open>
  Python stores whatever value the message carries. The state space of the model is
  that of the dataclass annotations (\<^verbatim>\<open>Optional[int]\<close>, \<^verbatim>\<open>Optional[str]\<close>), so a
  value is stored only if it has the annotated type; on any other value the model gives
  \<open>IllTyped\<close> and says nothing about what follows.
\<close>

fun as_optional_int :: "json \<Rightarrow> int option option" where
  "as_optional_int JNull = Some None"
| "as_optional_int (JInt i) = Some (Some i)"
| "as_optional_int v = None"

fun as_optional_str :: "json \<Rightarrow> string option option" where
  "as_optional_str JNull = Some None"
| "as_optional_str (JStr s) = Some (Some s)"
| "as_optional_str v = None"

text \<open>
  How a block of statements ends: it runs to its end, or it raises; either way the
  registry is as the statements executed so far have left it.
\<close>

datatype completion =
  Returned "effect list" registry
  | Raised exn "effect list" registry
  | IllTyped

section \<open>Connecting\<close>

text \<open>
  What the outside world answers during one call of \<^verbatim>\<open>connect_node\<close>: the result of
  \<^verbatim>\<open>websockets.connect\<close>, of \<^verbatim>\<open>send\<close>, of the \<^verbatim>\<open>recv\<close> under its 10 second
  \<^verbatim>\<open>wait_for\<close> (a timeout is \<open>Inl TimeoutError\<close>), and the clock.
\<close>

record connect_env =
  ws_connect :: "exn + WebSocket"
  ws_send :: "exn + unit"
  ack_recv :: "exn + frame"
  ack_time :: real

text \<open>
  The three failure branches of \<^verbatim>\<open>connect_node\<close> do the same thing after their own
  error message: \<^verbatim>\<open>is_connected = False\<close>, then \<^verbatim>\<open>handle_disconnection\<close>.
\<close>

definition connect_failed :: "string \<Rightarrow> effect list \<Rightarrow> NodeState \<Rightarrow> effect list \<times> NodeState" where
  "connect_failed message logged node =
     (let (closes, node') = handle_disconnection (node\<lparr>is_connected := False\<rparr>)
      in (logged @ [Log ERROR message] @ closes, node'))"

text \<open>
  \<^verbatim>\<open>connect_node\<close>. Every exception is caught inside the method: a timeout of the
  acknowledgement by the inner handler, anything else by the outer one. A failing
  \<^verbatim>\<open>websockets.connect\<close> raises before the assignment to \<^verbatim>\<open>websocket\<close>, so the field
  keeps its old value until \<^verbatim>\<open>handle_disconnection\<close> clears it. \<open>None\<close> is the
  ill-typed case: a subscription id that is neither a string nor null.
\<close>

definition connect_node :: "connect_env \<Rightarrow> NodeState \<Rightarrow> (effect list \<times> NodeState) option" where
  "connect_node c node =
     (let log1 = [Log INFO ''Attempting to connect to {node_name} node...''];
          error_connecting = ''Error connecting to {node_name} node: {e}''
      in case ws_connect c of
           Inl e \<Rightarrow> Some (connect_failed error_connecting log1 node)
         | Inr w \<Rightarrow>
             let node1 = node\<lparr>websocket := Some w\<rparr>;
                 log2 = log1 @ [Log INFO ''Sending subscription message to {node_name} node'']
             in case ws_send c of
                  Inl e \<Rightarrow> Some (connect_failed error_connecting log2 node1)
                | Inr u \<Rightarrow>
                   (case ack_recv c of
                      Inl e \<Rightarrow>
                        if e = TimeoutError then
                          Some (connect_failed
                            ''Timeout waiting for subscription response from {node_name} node''
                            log2 node1)
                        else Some (connect_failed error_connecting log2 node1)
                    | Inr response \<Rightarrow>
                       (case json_loads response of
                          Inl e \<Rightarrow> Some (connect_failed error_connecting log2 node1)
                        | Inr response_data \<Rightarrow>
                            let log3 = log2 @
                              [Log INFO ''Received subscription response from {node_name}: {response}'']
                            in case py_in ''result'' response_data of
                                 Inl e \<Rightarrow> Some (connect_failed error_connecting log3 node1)
                               | Inr False \<Rightarrow>
                                   Some (connect_failed
                                     ''Failed to get subscription ID from {node_name} node. Response: {response}''
                                     log3 node1)
                               | Inr True \<Rightarrow>
                                  (case py_getitem response_data ''result'' of
                                     Inl e \<Rightarrow> Some (connect_failed error_connecting log3 node1)
                                   | Inr v \<Rightarrow>
                                      (case as_optional_str v of
                                         None \<Rightarrow> None
                                       | Some sid \<Rightarrow>
                                           Some (log3 @
                                             [Log INFO ''Successfully connected to {node_name} node with subscription ID: {result}''],
                                             node1\<lparr>subscription_id := sid,
                                                   is_connected := True,
                                                   last_message_time := ack_time c\<rparr>))))))"

section \<open>The monitoring loop\<close>

text \<open>
  What the outside world answers during one iteration of the \<^verbatim>\<open>while True\<close> loop of
  \<^verbatim>\<open>monitor_node\<close>: the shutdown flag read at the top, the answers to
  \<^verbatim>\<open>connect_node\<close>, the clock read by the health check, the result of the
  \<^verbatim>\<open>recv\<close> under its 1 second \<^verbatim>\<open>wait_for\<close>, the clock read after it and the one
  read by \<^verbatim>\<open>update_momentums\<close>, and the shutdown flag read by the exception handlers.
\<close>

record env =
  shutdown_top :: bool
  connecting :: connect_env
  health_time :: real
  received :: "exn + frame"
  received_time :: real
  momentum_time :: real
  shutdown_handler :: bool

text \<open>
  Lines 221 and 222: the guard \<^verbatim>\<open>'params' in data and 'result' in data['params']\<close>
  and, when it holds, \<^verbatim>\<open>data['params']['result'][0]\<close>. \<open>Inr None\<close> is the guard
  evaluating to false, which leads to the \<^verbatim>\<open>else\<close> branch.
\<close>

definition first_result :: "json \<Rightarrow> exn + json option" where
  "first_result data =
     (case py_in ''params'' data of
        Inl e \<Rightarrow> Inl e
      | Inr False \<Rightarrow> Inr None
      | Inr True \<Rightarrow>
         (case py_getitem data ''params'' of
            Inl e \<Rightarrow> Inl e
          | Inr params \<Rightarrow>
             (case py_in ''result'' params of
                Inl e \<Rightarrow> Inl e
              | Inr False \<Rightarrow> Inr None
              | Inr True \<Rightarrow>
                 (case py_getitem params ''result'' of
                    Inl e \<Rightarrow> Inl e
                  | Inr result \<Rightarrow>
                     (case py_getitem0 result of
                        Inl e \<Rightarrow> Inl e
                      | Inr momentum \<Rightarrow> Inr (Some momentum))))))"

text \<open>
  Lines 223 to 227, on the momentum extracted from the message. The two assignments are
  separate statements: a message with a height and no hash has already set
  \<^verbatim>\<open>last_height\<close> when \<^verbatim>\<open>momentum['hash']\<close> raises.
\<close>

definition accept_momentum :: "real \<Rightarrow> string \<Rightarrow> json \<Rightarrow> registry \<Rightarrow> completion" where
  "accept_momentum now node_name momentum nodes =
     (case py_getitem momentum ''height'' of
        Inl e \<Rightarrow> Raised e [] nodes
      | Inr hv \<Rightarrow>
         (case as_optional_int hv of
            None \<Rightarrow> IllTyped
          | Some h \<Rightarrow>
              let nodes1 = upd_node node_name (\<lambda>node. node\<lparr>last_height := h\<rparr>) nodes
              in case py_getitem momentum ''hash'' of
                   Inl e \<Rightarrow> Raised e [] nodes1
                 | Inr xv \<Rightarrow>
                    (case as_optional_str xv of
                       None \<Rightarrow> IllTyped
                     | Some x \<Rightarrow>
                         let nodes2 = upd_node node_name (\<lambda>node. node\<lparr>last_hash := x\<rparr>) nodes1
                         in case (h, x) of
                              (Some height', Some hash') \<Rightarrow>
                                let nodes3 = upd_node node_name
                                      (update_momentums height' hash' now) nodes2;
                                    processed = Log INFO
                                      ''Processed momentum from {node_name}: Height={height}, Hash={hash}''
                                in (case check_for_fork nodes3 of
                                      (Inl e, nodes4) \<Rightarrow> Raised e [processed] nodes4
                                    | (Inr d, nodes4) \<Rightarrow> Returned [processed, Decision d] nodes4)
                            | _ \<Rightarrow> IllTyped)))"

text \<open>
  Lines 214 to 229, the body of the inner \<^verbatim>\<open>try\<close>: receive, stamp
  \<^verbatim>\<open>last_message_time\<close>, decode, then accept the momentum or warn. Calling
  \<^verbatim>\<open>recv\<close> on a \<^verbatim>\<open>websocket\<close> field that is \<^verbatim>\<open>None\<close> raises
  \<^verbatim>\<open>AttributeError\<close>.
\<close>

definition receive_message :: "env \<Rightarrow> string \<Rightarrow> NodeState \<Rightarrow> registry \<Rightarrow> completion" where
  "receive_message ev node_name node nodes =
     (case websocket node of
        None \<Rightarrow> Raised AttributeError [] nodes
      | Some w \<Rightarrow>
         (case received ev of
            Inl e \<Rightarrow> Raised e [] nodes
          | Inr response \<Rightarrow>
              let nodes1 = upd_node node_name
                    (\<lambda>node. node\<lparr>last_message_time := received_time ev\<rparr>) nodes
              in case json_loads response of
                   Inl e \<Rightarrow> Raised e [] nodes1
                 | Inr data \<Rightarrow>
                    (case first_result data of
                       Inl e \<Rightarrow> Raised e [] nodes1
                     | Inr None \<Rightarrow>
                         Returned [Log WARNING ''Unexpected message format from {node_name}: {response}'']
                           nodes1
                     | Inr (Some momentum) \<Rightarrow>
                         accept_momentum (momentum_time ev) node_name momentum nodes1)))"

text \<open>
  Lines 208 to 231: the health check, and for a node that is still connected after it
  the body of the inner \<^verbatim>\<open>try\<close>, whose handler turns a \<^verbatim>\<open>TimeoutError\<close> into a
  \<^verbatim>\<open>continue\<close>. A \<^verbatim>\<open>continue\<close> is a normal end of the iteration.
\<close>

definition poll_node ::
    "env \<Rightarrow> string \<Rightarrow> effect list \<Rightarrow> NodeState \<Rightarrow> registry \<Rightarrow> completion" where
  "poll_node ev node_name logged1 node nodes =
     (let (logged2, node2) = check_connection_health (health_time ev) node;
          nodes2 = upd_node node_name (\<lambda>node. node2) nodes
      in if \<not> is_connected node2 then Returned (logged1 @ logged2) nodes2
         else
           (case receive_message ev node_name node2 nodes2 of
              Returned logged3 nodes3 \<Rightarrow> Returned (logged1 @ logged2 @ logged3) nodes3
            | Raised e logged3 nodes3 \<Rightarrow>
                if e = TimeoutError
                then Returned (logged1 @ logged2 @ logged3) nodes3
                else Raised e (logged1 @ logged2 @ logged3) nodes3
            | IllTyped \<Rightarrow> IllTyped))"

text \<open>
  Lines 198 to 231, the body of the outer \<^verbatim>\<open>try\<close> for a node that is in the registry.
  \<open>Inl\<close> is the \<^verbatim>\<open>break\<close> on shutdown; \<open>Inr\<close> says how the rest of the body ended.
\<close>

definition monitor_node_body ::
    "env \<Rightarrow> string \<Rightarrow> NodeState \<Rightarrow> registry \<Rightarrow> effect list + completion" where
  "monitor_node_body ev node_name node nodes =
     (if shutdown_top ev then Inl [Log INFO ''Shutdown signal received for {node_name}'']
      else if \<not> is_connected node then
        (case connect_node (connecting ev) node of
           None \<Rightarrow> Inr IllTyped
         | Some (logged1, node1) \<Rightarrow>
             let nodes1 = upd_node node_name (\<lambda>node. node1) nodes
             in if \<not> is_connected node1 then Inr (Returned (logged1 @ [Sleep 5]) nodes1)
                else Inr (poll_node ev node_name logged1 node1 nodes1))
      else Inr (poll_node ev node_name [] node nodes))"

text \<open>
  One iteration of the loop of \<^verbatim>\<open>monitor_node\<close>, with the two outer handlers. Both
  do the same when shutdown is not signalled: a message (a warning for
  \<^verbatim>\<open>ConnectionClosed\<close>, an error otherwise), \<^verbatim>\<open>is_connected = False\<close> and a
  5 second sleep; when shutdown is signalled they do nothing. The loop then goes on,
  unless the body has left it by \<^verbatim>\<open>break\<close>. For a name that is not a key of the
  registry \<^verbatim>\<open>self.nodes[node_name]\<close> raises \<^verbatim>\<open>KeyError\<close>, in the body and again in
  the handler, where it leaves the method.
\<close>

datatype outcome =
  Next "effect list" registry
  | Break "effect list" registry
  | Escaped exn "effect list" registry
  | OutsideModel

definition monitor_node_iteration :: "env \<Rightarrow> string \<Rightarrow> registry \<Rightarrow> outcome" where
  "monitor_node_iteration ev node_name nodes =
     (case map_of nodes node_name of
        None \<Rightarrow>
          if shutdown_top ev then Break [Log INFO ''Shutdown signal received for {node_name}''] nodes
          else if shutdown_handler ev then Next [] nodes
          else Escaped KeyError [Log ERROR ''Error monitoring {node_name} node: {e}''] nodes
      | Some node \<Rightarrow>
         (case monitor_node_body ev node_name node nodes of
            Inl logged \<Rightarrow> Break logged nodes
          | Inr (Returned logged nodes') \<Rightarrow> Next logged nodes'
          | Inr IllTyped \<Rightarrow> OutsideModel
          | Inr (Raised e logged nodes') \<Rightarrow>
              if shutdown_handler ev then Next logged nodes'
              else
                Next (logged @
                      [(if e = ConnectionClosed
                        then Log WARNING
                          ''Connection to {node_name} node closed. Attempting to reconnect...''
                        else Log ERROR ''Error monitoring {node_name} node: {e}''),
                       Sleep 5])
                  (upd_node node_name (\<lambda>node. node\<lparr>is_connected := False\<rparr>) nodes')))"

text \<open>
  A run of the monitor: iterations of the tasks, one after the other, each with the name
  of its node and the answers it gets. The run goes on after an iteration that has ended
  the loop of its task, since the other tasks are still there; it has no result when an
  iteration leads outside the model.
\<close>

fun run :: "(string \<times> env) list \<Rightarrow> registry \<Rightarrow> registry option" where
  "run [] nodes = Some nodes"
| "run ((node_name, ev) # rest) nodes =
     (case monitor_node_iteration ev node_name nodes of
        Next logged nodes' \<Rightarrow> run rest nodes'
      | Break logged nodes' \<Rightarrow> run rest nodes'
      | Escaped e logged nodes' \<Rightarrow> run rest nodes'
      | OutsideModel \<Rightarrow> None)"

section \<open>Scenarios\<close>

text \<open>
  The registries of the scenarios A to D of the design: three nodes, each connected and
  reporting a height and a hash, except that in scenario D the third node is
  disconnected.
\<close>

definition reporting :: "int \<Rightarrow> string \<Rightarrow> NodeState" where
  "reporting h x = NodeState_init\<lparr>is_connected := True, last_height := Some h, last_hash := Some x\<rparr>"

definition scenario_A :: registry where
  "scenario_A = [(''hc1'', reporting 100 ''H1''), (''zenonhub'', reporting 100 ''H1''),
                 (''atsocy'', reporting 100 ''H1'')]"

definition scenario_B :: registry where
  "scenario_B = [(''hc1'', reporting 100 ''H1''), (''zenonhub'', reporting 100 ''H2''),
                 (''atsocy'', reporting 100 ''H1'')]"

definition scenario_C :: registry where
  "scenario_C = [(''hc1'', reporting 100 ''H1''), (''zenonhub'', reporting 99 ''H1''),
                 (''atsocy'', reporting 100 ''H1'')]"

definition scenario_D :: registry where
  "scenario_D = [(''hc1'', reporting 100 ''H1''), (''zenonhub'', reporting 100 ''H1''),
                 (''atsocy'', (reporting 100 ''H1'')\<lparr>is_connected := False\<rparr>)]"

text \<open>
  A connected node with an open handle, a subscription and two momentums, the last message
  received at time 1000.
\<close>

definition held :: NodeState where
  "held = \<lparr>websocket = Some \<lparr>ws_closed = False\<rparr>, subscription_id = Some ''sub-1'',
            last_height = Some 101, last_hash = Some ''H2'', is_connected = True,
            last_message_time = 1000,
            momentums = [\<lparr>height = 100, hash = ''H1'', timestamp = 990, is_stale = False\<rparr>,
                         \<lparr>height = 101, hash = ''H2'', timestamp = 1000, is_stale = False\<rparr>]\<rparr>"


section \<open>The bound on the momentums of a registry\<close>

text \<open>Every node of the registry holds at most five momentums.\<close>

definition momentums_bounded :: "registry \<Rightarrow> bool" where
  "momentums_bounded nodes = list_all (\<lambda>node. length (momentums node) \<le> 5) (map snd nodes)"

text \<open>The same, of the registry a block of statements leaves behind.\<close>

definition completion_bounded :: "completion \<Rightarrow> bool" where
  "completion_bounded c =
     (case c of
        Returned logged nodes \<Rightarrow> momentums_bounded nodes
      | Raised e logged nodes \<Rightarrow> momentums_bounded nodes
      | IllTyped \<Rightarrow> True)"

section \<open>Messages and answers used in examples\<close>

text \<open>
  The shape of a push notification as the interface section of the design gives it: an
  object containing \<^verbatim>\<open>params.result\<close>, a sequence whose first element is an object with
  at least an integer \<^verbatim>\<open>height\<close> and a string \<^verbatim>\<open>hash\<close>.
\<close>

definition expected_notification :: "json \<Rightarrow> bool" where
  "expected_notification data =
     (case data of
        JObj kvs \<Rightarrow>
          (case map_of kvs ''params'' of
             Some (JObj ps) \<Rightarrow>
               (case map_of ps ''result'' of
                  Some (JArr (JObj m # rest)) \<Rightarrow>
                    (case map_of m ''height'' of
                       Some (JInt h) \<Rightarrow>
                         (case map_of m ''hash'' of Some (JStr x) \<Rightarrow> True | _ \<Rightarrow> False)
                     | _ \<Rightarrow> False)
                | _ \<Rightarrow> False)
           | _ \<Rightarrow> False)
      | _ \<Rightarrow> False)"

text \<open>The acknowledgement of a subscription, and the notification of a momentum.\<close>

definition subscription_ack :: frame where
  "subscription_ack =
     Encodes (JObj [(''jsonrpc'', JStr ''2.0''), (''id'', JInt 1), (''result'', JStr ''sub-1'')])"

definition momentum_notification :: "int \<Rightarrow> string \<Rightarrow> frame" where
  "momentum_notification h x =
     Encodes (JObj [(''jsonrpc'', JStr ''2.0''), (''method'', JStr ''ledger.subscription''),
                    (''params'', JObj [(''subscription'', JStr ''sub-1''),
                                       (''result'', JArr [JObj [(''hash'', JStr x),
                                                                (''height'', JInt h)]])])])"

text \<open>A notification whose \<^verbatim>\<open>params.result\<close> is an empty sequence.\<close>

definition empty_notification :: json where
  "empty_notification = JObj [(''params'', JObj [(''result'', JArr [])])]"

text \<open>A message without \<^verbatim>\<open>params\<close>.\<close>

definition other_message :: json where
  "other_message = JObj [(''jsonrpc'', JStr ''2.0''), (''id'', JInt 2), (''result'', JNull)]"

text \<open>
  The answers of an iteration at time \<open>now\<close> in which nothing fails but what \<open>r\<close> says
  about the \<^verbatim>\<open>recv\<close> of the loop: no shutdown, and a connection attempt, if there is
  one, succeeds.
\<close>

definition answers :: "real \<Rightarrow> exn + frame \<Rightarrow> env" where
  "answers now r =
     \<lparr>shutdown_top = False,
      connecting = \<lparr>ws_connect = Inr \<lparr>ws_closed = False\<rparr>, ws_send = Inr (),
                    ack_recv = Inr subscription_ack, ack_time = now\<rparr>,
      health_time = now, received = r, received_time = now, momentum_time = now,
      shutdown_handler = False\<rparr>"

text \<open>The registry in which the first node is the connected node \<open>held\<close>.\<close>

definition monitored :: registry where
  "monitored = [(''hc1'', held), (''zenonhub'', NodeState_init), (''atsocy'', NodeState_init)]"

text \<open>A node holding five momentums, of heights 1 to 5.\<close>

definition full_node :: NodeState where
  "full_node = NodeState_init\<lparr>momentums :=
     map (\<lambda>h. \<lparr>height = h, hash = ''H'', timestamp = 0, is_stale = False\<rparr>) [1, 2, 3, 4, 5]\<rparr>"

section \<open>Properties of the fork check\<close>

lemma card_gt_1_iff:
  "(card (set xs) > 1) = (\<exists>a\<in>set xs. \<exists>b\<in>set xs. a \<noteq> b)"
proof -
  have "(card (set xs) \<le> Suc 0) = (\<forall>a\<in>set xs. \<forall>b\<in>set xs. a = b)"
    by (rule card_le_Suc0_iff_eq) simp
  then show ?thesis by auto
qed

lemma card_map_gt_1_iff:
  "(card (set (map f xs)) > 1) = (\<exists>a\<in>set xs. \<exists>b\<in>set xs. f a \<noteq> f b)"
  unfolding card_gt_1_iff by (simp add: bex_simps)

lemma heights_values:
  "map snd (map (\<lambda>(node_name, node). (node_name, last_height node)) nodes) =
   map (\<lambda>node. last_height node) (map snd nodes)"
  by (induction nodes) auto

lemma map_of_in_values:
  "map_of nodes k = Some v \<Longrightarrow> v \<in> set (map snd nodes)"
  by (induction nodes) (auto split: if_splits)

lemma key_has_value:
  "k \<in> set (map fst nodes) \<Longrightarrow> \<exists>v. map_of nodes k = Some v"
  by (induction nodes) auto

lemma no_data_False:
  assumes "list_all (\<lambda>node. last_height node \<noteq> None \<and> last_hash node \<noteq> None) (map snd nodes)"
  shows "list_ex (\<lambda>node. last_height node = None \<or> last_hash node = None) (map snd nodes) = False"
  using assms by (auto simp: list_all_iff list_ex_iff)

lemma same_heights_False:
  assumes "\<forall>a\<in>set (map snd nodes). \<forall>b\<in>set (map snd nodes). last_height a = last_height b"
  shows "(card (set (map snd (map (\<lambda>(node_name, node). (node_name, last_height node)) nodes))) > 1)
           = False"
  unfolding heights_values card_map_gt_1_iff using assms by blast

lemma check_for_fork_same_height:
  assumes conn: "list_all (\<lambda>node. is_connected node) (map snd nodes)"
    and data: "list_all (\<lambda>node. last_height node \<noteq> None \<and> last_hash node \<noteq> None) (map snd nodes)"
    and heights: "\<forall>a\<in>set (map snd nodes). \<forall>b\<in>set (map snd nodes). last_height a = last_height b"
    and r: "map_of nodes ''hc1'' = Some r"
  shows "check_for_fork nodes =
      (if list_all (\<lambda>node. last_hash node = last_hash r) (map snd nodes)
       then (Inr (Consensus (last_height r) (last_hash r)), nodes)
       else (Inr (Fork (map (\<lambda>(node_name, node). (node_name, last_height node, last_hash node)) nodes)), nodes))"
proof -
  have c: "list_all (\<lambda>node. is_connected node) (map snd nodes) = True"
    using conn by simp
  show ?thesis
    unfolding check_for_fork_def Let_def
    by (simp only: c no_data_False [OF data] same_heights_False [OF heights] r
        not_True_eq_False if_False option.case)
qed

lemma check_for_fork_with_reference_same_height:
  assumes conn: "list_all (\<lambda>node. is_connected node) (map snd nodes)"
    and data: "list_all (\<lambda>node. last_height node \<noteq> None \<and> last_hash node \<noteq> None) (map snd nodes)"
    and heights: "\<forall>a\<in>set (map snd nodes). \<forall>b\<in>set (map snd nodes). last_height a = last_height b"
    and r: "map_of nodes k = Some r"
  shows "check_for_fork_with_reference k nodes =
      (if list_all (\<lambda>node. last_hash node = last_hash r) (map snd nodes)
       then (Inr (Consensus (last_height r) (last_hash r)), nodes)
       else (Inr (Fork (map (\<lambda>(node_name, node). (node_name, last_height node, last_hash node)) nodes)), nodes))"
proof -
  have c: "list_all (\<lambda>node. is_connected node) (map snd nodes) = True"
    using conn by simp
  show ?thesis
    unfolding check_for_fork_with_reference_def Let_def
    by (simp only: c no_data_False [OF data] same_heights_False [OF heights] r
        not_True_eq_False if_False option.case)
qed

lemma check_for_fork_registry: "snd (check_for_fork nodes) = nodes"
  unfolding check_for_fork_def Let_def by (simp split: option.split)

lemmas scen =
  scenario_A_def scenario_B_def scenario_C_def scenario_D_def reporting_def NodeState_init_def

text \<open>
  Claim C1. In a registry that holds \<^verbatim>\<open>'hc1'\<close>, with every node connected, every node
  holding a height and a hash, and all heights equal: if all hashes are equal the decision
  is \<open>Consensus\<close> with that height and hash (those of any node), and if two hashes
  differ the decision is \<open>Fork\<close>, listing every node with its height and hash.
\<close>

theorem check_for_fork_consensus_or_fork:
  assumes conn: "list_all (\<lambda>node. is_connected node) (map snd nodes)"
    and data: "list_all (\<lambda>node. last_height node \<noteq> None \<and> last_hash node \<noteq> None) (map snd nodes)"
    and heights: "\<forall>a\<in>set (map snd nodes). \<forall>b\<in>set (map snd nodes). last_height a = last_height b"
    and hc1: "''hc1'' \<in> set (map fst nodes)"
  shows "((\<forall>a\<in>set (map snd nodes). \<forall>b\<in>set (map snd nodes). last_hash a = last_hash b) \<longrightarrow>
            (\<forall>n\<in>set (map snd nodes).
               fst (check_for_fork nodes) = Inr (Consensus (last_height n) (last_hash n)))) \<and>
         ((\<exists>a\<in>set (map snd nodes). \<exists>b\<in>set (map snd nodes). last_hash a \<noteq> last_hash b) \<longrightarrow>
            fst (check_for_fork nodes) =
              Inr (Fork (map (\<lambda>(node_name, node). (node_name, last_height node, last_hash node)) nodes)))"
proof -
  obtain r where r: "map_of nodes ''hc1'' = Some r"
    using key_has_value [OF hc1] by blast
  have rin: "r \<in> set (map snd nodes)" using map_of_in_values [OF r] .
  note eq = check_for_fork_same_height [OF conn data heights r]
  show ?thesis
  proof (intro conjI impI ballI)
    fix n
    assume same: "\<forall>a\<in>set (map snd nodes). \<forall>b\<in>set (map snd nodes). last_hash a = last_hash b"
      and n: "n \<in> set (map snd nodes)"
    have "list_all (\<lambda>node. last_hash node = last_hash r) (map snd nodes)"
      unfolding list_all_iff using same rin by blast
    moreover have "last_height n = last_height r" "last_hash n = last_hash r"
      using heights same n rin by blast+
    ultimately show "fst (check_for_fork nodes) = Inr (Consensus (last_height n) (last_hash n))"
      unfolding eq by simp
  next
    assume "\<exists>a\<in>set (map snd nodes). \<exists>b\<in>set (map snd nodes). last_hash a \<noteq> last_hash b"
    then obtain a b where ab: "a \<in> set (map snd nodes)" "b \<in> set (map snd nodes)"
      "last_hash a \<noteq> last_hash b" by blast
    then have "last_hash a \<noteq> last_hash r \<or> last_hash b \<noteq> last_hash r" by auto
    then have "\<not> list_all (\<lambda>node. last_hash node = last_hash r) (map snd nodes)"
      unfolding list_all_iff using ab by blast
    then show "fst (check_for_fork nodes) =
              Inr (Fork (map (\<lambda>(node_name, node). (node_name, last_height node, last_hash node)) nodes))"
      unfolding eq by simp
  qed
qed

text \<open>The theorem at scenario A and at scenario B.\<close>

theorem check_for_fork_consensus_or_fork_witness:
  "list_all (\<lambda>node. is_connected node) (map snd scenario_A) \<and>
   list_all (\<lambda>node. last_height node \<noteq> None \<and> last_hash node \<noteq> None) (map snd scenario_A) \<and>
   ''hc1'' \<in> set (map fst scenario_A) \<and>
   fst (check_for_fork scenario_A) = Inr (Consensus (Some 100) (Some ''H1'')) \<and>
   list_all (\<lambda>node. is_connected node) (map snd scenario_B) \<and>
   list_all (\<lambda>node. last_height node \<noteq> None \<and> last_hash node \<noteq> None) (map snd scenario_B) \<and>
   ''hc1'' \<in> set (map fst scenario_B) \<and>
   fst (check_for_fork scenario_B) =
     Inr (Fork [(''hc1'', Some 100, Some ''H1''), (''zenonhub'', Some 100, Some ''H2''),
                (''atsocy'', Some 100, Some ''H1'')])"
proof -
  have cA: "list_all (\<lambda>node. is_connected node) (map snd scenario_A)"
    and dA: "list_all (\<lambda>node. last_height node \<noteq> None \<and> last_hash node \<noteq> None) (map snd scenario_A)"
    and hA: "\<forall>a\<in>set (map snd scenario_A). \<forall>b\<in>set (map snd scenario_A). last_height a = last_height b"
    and kA: "''hc1'' \<in> set (map fst scenario_A)"
    and sA: "\<forall>a\<in>set (map snd scenario_A). \<forall>b\<in>set (map snd scenario_A). last_hash a = last_hash b"
    by (simp_all add: scen)
  have mA: "reporting 100 ''H1'' \<in> set (map snd scenario_A)"
    by (simp add: scenario_A_def)
  have cB: "list_all (\<lambda>node. is_connected node) (map snd scenario_B)"
    and dB: "list_all (\<lambda>node. last_height node \<noteq> None \<and> last_hash node \<noteq> None) (map snd scenario_B)"
    and hB: "\<forall>a\<in>set (map snd scenario_B). \<forall>b\<in>set (map snd scenario_B). last_height a = last_height b"
    and kB: "''hc1'' \<in> set (map fst scenario_B)"
    by (simp_all add: scen)
  have "card (set (map (\<lambda>node. last_hash node) (map snd scenario_B))) > 1"
    by (simp add: scen card_insert_if)
  then have sB: "\<exists>a\<in>set (map snd scenario_B). \<exists>b\<in>set (map snd scenario_B). last_hash a \<noteq> last_hash b"
    unfolding card_map_gt_1_iff .
  have "fst (check_for_fork scenario_A) =
      Inr (Consensus (last_height (reporting 100 ''H1'')) (last_hash (reporting 100 ''H1'')))"
    using check_for_fork_consensus_or_fork [OF cA dA hA kA] sA mA by blast
  then have A: "fst (check_for_fork scenario_A) = Inr (Consensus (Some 100) (Some ''H1''))"
    by (simp add: scen)
  have "fst (check_for_fork scenario_B) =
      Inr (Fork (map (\<lambda>(node_name, node). (node_name, last_height node, last_hash node)) scenario_B))"
    using check_for_fork_consensus_or_fork [OF cB dB hB kB] sB by blast
  then have B: "fst (check_for_fork scenario_B) =
     Inr (Fork [(''hc1'', Some 100, Some ''H1''), (''zenonhub'', Some 100, Some ''H2''),
                (''atsocy'', Some 100, Some ''H1'')])"
    by (simp add: scen)
  show ?thesis using cA dA kA A cB dB kB B by simp
qed

text \<open>
  Claim C2. As soon as one node of the registry has \<open>is_connected = False\<close> the
  decision is \<open>Incomplete disconnected\<close>, whatever heights and hashes the nodes hold,
  and the registry is returned as it was.
\<close>

theorem check_for_fork_disconnected:
  assumes "list_ex (\<lambda>node. \<not> is_connected node) (map snd nodes)"
  shows "check_for_fork nodes = (Inr (Incomplete disconnected), nodes)"
proof -
  have "list_all (\<lambda>node. is_connected node) (map snd nodes) = False"
    using assms by (auto simp: list_all_iff list_ex_iff)
  then show ?thesis
    unfolding check_for_fork_def by (simp only: not_False_eq_True if_True)
qed

text \<open>The theorem at scenario D.\<close>

theorem check_for_fork_disconnected_witness:
  "list_ex (\<lambda>node. \<not> is_connected node) (map snd scenario_D) \<and>
   check_for_fork scenario_D = (Inr (Incomplete disconnected), scenario_D)"
proof -
  have h: "list_ex (\<lambda>node. \<not> is_connected node) (map snd scenario_D)"
    by (simp add: scen)
  show ?thesis using h check_for_fork_disconnected [OF h] by simp
qed

text \<open>
  Claim C3. With every node connected and holding a height and a hash, more than one
  distinct height gives \<open>Incomplete (height_mismatch _)\<close>, listing the heights; the
  hashes play no part in the result.
\<close>

theorem check_for_fork_height_mismatch:
  assumes conn: "list_all (\<lambda>node. is_connected node) (map snd nodes)"
    and data: "list_all (\<lambda>node. last_height node \<noteq> None \<and> last_hash node \<noteq> None) (map snd nodes)"
    and differ: "card (set (map (\<lambda>node. last_height node) (map snd nodes))) > 1"
  shows "check_for_fork nodes =
     (Inr (Incomplete (height_mismatch (map (\<lambda>(node_name, node). (node_name, last_height node)) nodes))),
      nodes)"
proof -
  have c: "list_all (\<lambda>node. is_connected node) (map snd nodes) = True"
    using conn by simp
  have d: "(card (set (map snd (map (\<lambda>(node_name, node). (node_name, last_height node)) nodes))) > 1)
             = True"
    unfolding heights_values using differ by simp
  show ?thesis
    unfolding check_for_fork_def Let_def
    by (simp only: c no_data_False [OF data] d not_True_eq_False if_False if_True)
qed

text \<open>The theorem at scenario C.\<close>

theorem check_for_fork_height_mismatch_witness:
  "list_all (\<lambda>node. is_connected node) (map snd scenario_C) \<and>
   list_all (\<lambda>node. last_height node \<noteq> None \<and> last_hash node \<noteq> None) (map snd scenario_C) \<and>
   card (set (map (\<lambda>node. last_height node) (map snd scenario_C))) > 1 \<and>
   check_for_fork scenario_C =
     (Inr (Incomplete (height_mismatch [(''hc1'', Some 100), (''zenonhub'', Some 99),
                                         (''atsocy'', Some 100)])), scenario_C)"
proof -
  have c: "list_all (\<lambda>node. is_connected node) (map snd scenario_C)"
    by (simp add: scen)
  have d: "list_all (\<lambda>node. last_height node \<noteq> None \<and> last_hash node \<noteq> None) (map snd scenario_C)"
    by (simp add: scen)
  have k: "card (set (map (\<lambda>node. last_height node) (map snd scenario_C))) > 1"
    by (simp add: scen card_insert_if)
  have "map (\<lambda>(node_name, node). (node_name, last_height node)) scenario_C =
      [(''hc1'', Some 100), (''zenonhub'', Some 99), (''atsocy'', Some 100)]"
    by (simp add: scen)
  then show ?thesis using c d k check_for_fork_height_mismatch [OF c d k] by simp
qed

text \<open>
  Claim C9. The fork check returns the registry it was given, and a second call on that
  registry gives the decision of the first.
\<close>

theorem check_for_fork_pure:
  "snd (check_for_fork nodes) = nodes \<and>
   fst (check_for_fork (snd (check_for_fork nodes))) = fst (check_for_fork nodes)"
proof -
  have "snd (check_for_fork nodes) = nodes"
    unfolding check_for_fork_def Let_def by (simp split: option.split)
  then show ?thesis by simp
qed

text \<open>
  Claim C10. With every node connected, every node holding a height and a hash, and all
  heights equal, the check with any node of the registry as reference gives the result
  of the check with \<^verbatim>\<open>'hc1'\<close>; and when the decision is \<open>Consensus h x\<close>, every node
  holds the hash \<open>x\<close> and the height \<open>h\<close>.
\<close>

theorem check_for_fork_reference_independent:
  assumes conn: "list_all (\<lambda>node. is_connected node) (map snd nodes)"
    and data: "list_all (\<lambda>node. last_height node \<noteq> None \<and> last_hash node \<noteq> None) (map snd nodes)"
    and heights: "\<forall>a\<in>set (map snd nodes). \<forall>b\<in>set (map snd nodes). last_height a = last_height b"
    and hc1: "''hc1'' \<in> set (map fst nodes)"
  shows "(\<forall>reference\<in>set (map fst nodes).
            check_for_fork_with_reference reference nodes = check_for_fork nodes) \<and>
         (\<forall>h x. fst (check_for_fork nodes) = Inr (Consensus h x) \<longrightarrow>
            (\<forall>n\<in>set (map snd nodes). last_hash n = x \<and> last_height n = h))"
proof -
  obtain r where r: "map_of nodes ''hc1'' = Some r"
    using key_has_value [OF hc1] by blast
  have rin: "r \<in> set (map snd nodes)" using map_of_in_values [OF r] .
  note eq = check_for_fork_same_height [OF conn data heights r]
  have part1: "check_for_fork_with_reference k nodes = check_for_fork nodes"
    if k: "k \<in> set (map fst nodes)" for k
  proof -
    obtain q where q: "map_of nodes k = Some q"
      using key_has_value [OF k] by blast
    have qin: "q \<in> set (map snd nodes)" using map_of_in_values [OF q] .
    note eq' = check_for_fork_with_reference_same_height [OF conn data heights q]
    have hq: "last_height q = last_height r" using heights qin rin by blast
    show ?thesis
    proof (cases "list_all (\<lambda>node. last_hash node = last_hash r) (map snd nodes)")
      case True
      then have qr: "last_hash q = last_hash r" using qin by (auto simp: list_all_iff)
      with True hq show ?thesis unfolding eq eq' by simp
    next
      case False
      have "\<not> list_all (\<lambda>node. last_hash node = last_hash q) (map snd nodes)"
      proof
        assume a: "list_all (\<lambda>node. last_hash node = last_hash q) (map snd nodes)"
        then have "last_hash r = last_hash q" using rin by (auto simp: list_all_iff)
        with a False show False by simp
      qed
      with False show ?thesis unfolding eq eq' by simp
    qed
  qed
  have part2: "last_hash n = x \<and> last_height n = h"
    if d: "fst (check_for_fork nodes) = Inr (Consensus h x)" and n: "n \<in> set (map snd nodes)"
    for h x n
  proof -
    have all: "list_all (\<lambda>node. last_hash node = last_hash r) (map snd nodes)"
      using d unfolding eq by (simp split: if_splits)
    then have "x = last_hash r" "h = last_height r" using d unfolding eq by simp_all
    moreover have "last_hash n = last_hash r" using all n by (auto simp: list_all_iff)
    moreover have "last_height n = last_height r" using heights n rin by blast
    ultimately show ?thesis by simp
  qed
  show ?thesis using part1 part2 by blast
qed


text \<open>The theorem at scenario B, with the second node as reference.\<close>

theorem check_for_fork_reference_independent_witness:
  "list_all (\<lambda>node. is_connected node) (map snd scenario_B) \<and>
   list_all (\<lambda>node. last_height node \<noteq> None \<and> last_hash node \<noteq> None) (map snd scenario_B) \<and>
   ''hc1'' \<in> set (map fst scenario_B) \<and> ''zenonhub'' \<in> set (map fst scenario_B) \<and>
   check_for_fork_with_reference ''zenonhub'' scenario_B = check_for_fork scenario_B"
proof -
  have cB: "list_all (\<lambda>node. is_connected node) (map snd scenario_B)"
    and dB: "list_all (\<lambda>node. last_height node \<noteq> None \<and> last_hash node \<noteq> None) (map snd scenario_B)"
    and hB: "\<forall>a\<in>set (map snd scenario_B). \<forall>b\<in>set (map snd scenario_B). last_height a = last_height b"
    and kB: "''hc1'' \<in> set (map fst scenario_B)"
    and zB: "''zenonhub'' \<in> set (map fst scenario_B)"
    by (simp_all add: scen)
  have "check_for_fork_with_reference ''zenonhub'' scenario_B = check_for_fork scenario_B"
    using check_for_fork_reference_independent [OF cB dB hB kB] zB by blast
  then show ?thesis using cB dB kB zB by simp
qed

section \<open>Properties of the per-node operations\<close>

text \<open>
  Claim C6. After \<^verbatim>\<open>handle_disconnection\<close>, on any node state: the node is not
  connected, it has no subscription id and no handle, the handle it had was closed if it
  was open, every momentum is stale, and the momentums are the ones held before, in the
  same order, with their heights, hashes and timestamps.
\<close>

theorem handle_disconnection_clears_and_marks_stale:
  "\<not> is_connected (snd (handle_disconnection node)) \<and>
   subscription_id (snd (handle_disconnection node)) = None \<and>
   websocket (snd (handle_disconnection node)) = None \<and>
   fst (handle_disconnection node) =
     (case websocket node of None \<Rightarrow> [] | Some w \<Rightarrow> if ws_closed w then [] else [Close w]) \<and>
   list_all (\<lambda>momentum. is_stale momentum) (momentums (snd (handle_disconnection node))) \<and>
   length (momentums (snd (handle_disconnection node))) = length (momentums node) \<and>
   map (\<lambda>momentum. (height momentum, hash momentum, timestamp momentum))
       (momentums (snd (handle_disconnection node))) =
   map (\<lambda>momentum. (height momentum, hash momentum, timestamp momentum)) (momentums node)"
  by (simp add: handle_disconnection_def list_all_iff comp_def split: option.split)

text \<open>The theorem at a connected node with an open handle and two momentums.\<close>

theorem handle_disconnection_clears_and_marks_stale_witness:
  "handle_disconnection held =
     ([Close \<lparr>ws_closed = False\<rparr>],
      held\<lparr>is_connected := False, subscription_id := None, websocket := None,
           momentums := [\<lparr>height = 100, hash = ''H1'', timestamp = 990, is_stale = True\<rparr>,
                         \<lparr>height = 101, hash = ''H2'', timestamp = 1000, is_stale = True\<rparr>]\<rparr>) \<and>
   list_all (\<lambda>momentum. is_stale momentum) (momentums (snd (handle_disconnection held)))"
  using handle_disconnection_clears_and_marks_stale [of held] by (simp add: handle_disconnection_def held_def)



section \<open>The bound on the momentums\<close>

lemma update_momentums_length:
  "length (momentums (update_momentums h x now node)) \<le> 5"
  by (simp add: update_momentums_def Let_def)

lemma update_momentums_full:
  "length (momentums node) = 5 \<Longrightarrow>
   momentums (update_momentums h x now node) =
     tl (momentums node) @ [\<lparr>height = h, hash = x, timestamp = now, is_stale = False\<rparr>]"
  by (cases "momentums node") (simp_all add: update_momentums_def Let_def)

lemma update_momentums_room:
  "length (momentums node) < 5 \<Longrightarrow>
   momentums (update_momentums h x now node) =
     momentums node @ [\<lparr>height = h, hash = x, timestamp = now, is_stale = False\<rparr>]"
  by (simp add: update_momentums_def Let_def)

lemma upd_node_bounded:
  assumes "momentums_bounded nodes"
    and "\<And>n. n \<in> set (map snd nodes) \<Longrightarrow> length (momentums (f n)) \<le> 5"
  shows "momentums_bounded (upd_node k f nodes)"
  using assms unfolding momentums_bounded_def upd_node_def
  by (induction nodes) (auto split: prod.splits)

lemma handle_disconnection_length:
  "length (momentums (snd (handle_disconnection node))) = length (momentums node)"
  by (simp add: handle_disconnection_def)

lemma check_connection_health_length:
  "length (momentums (snd (check_connection_health now node))) = length (momentums node)"
  by (simp add: check_connection_health_def handle_disconnection_def split: prod.split)

lemma connect_failed_length:
  "length (momentums (snd (connect_failed msg logged node))) = length (momentums node)"
  by (simp add: connect_failed_def handle_disconnection_def split: prod.split)

lemma connect_node_length:
  assumes "connect_node c node = Some r"
  shows "length (momentums (snd r)) = length (momentums node)"
  using assms unfolding connect_node_def Let_def
  by (auto simp: connect_failed_length split: sum.splits option.splits bool.splits if_splits)

lemma upd_node_field_bounded:
  assumes "momentums_bounded nodes" and "\<And>n. momentums (f n) = momentums n"
  shows "momentums_bounded (upd_node k f nodes)"
proof (rule upd_node_bounded [OF assms(1)])
  fix n assume "n \<in> set (map snd nodes)"
  then have "length (momentums n) \<le> 5"
    using assms(1) unfolding momentums_bounded_def by (auto simp: list_all_iff)
  then show "length (momentums (f n)) \<le> 5" by (simp add: assms(2))
qed

lemma upd_node_const_bounded:
  assumes "momentums_bounded nodes" and "length (momentums n') \<le> 5"
  shows "momentums_bounded (upd_node k (\<lambda>node. n') nodes)"
  by (rule upd_node_bounded [OF assms(1)]) (simp add: assms(2))

lemma member_bounded:
  assumes "momentums_bounded nodes" and "map_of nodes k = Some n"
  shows "length (momentums n) \<le> 5"
proof -
  have "n \<in> set (map snd nodes)" using assms(2) by (rule map_of_in_values)
  then show ?thesis using assms(1) unfolding momentums_bounded_def by (auto simp: list_all_iff)
qed

lemma accept_momentum_bounded:
  assumes b: "momentums_bounded nodes"
  shows "completion_bounded (accept_momentum now k momentum nodes)"
proof -
  have b1: "momentums_bounded (upd_node k (\<lambda>node. node\<lparr>last_height := h\<rparr>) nodes)" for h
    by (rule upd_node_field_bounded [OF b]) simp
  have b2: "momentums_bounded (upd_node k (\<lambda>node. node\<lparr>last_hash := x\<rparr>)
      (upd_node k (\<lambda>node. node\<lparr>last_height := h\<rparr>) nodes))" for h x
    by (rule upd_node_field_bounded [OF b1]) simp
  have b3: "momentums_bounded (upd_node k (update_momentums h' x' now)
      (upd_node k (\<lambda>node. node\<lparr>last_hash := x\<rparr>)
        (upd_node k (\<lambda>node. node\<lparr>last_height := h\<rparr>) nodes)))" for h x h' x'
    by (rule upd_node_bounded [OF b2]) (rule update_momentums_length)
  have cf: "completion_bounded (case check_for_fork ns of
        (Inl e, nodes4) \<Rightarrow> Raised e lg nodes4
      | (Inr d, nodes4) \<Rightarrow> Returned (lg' d) nodes4)" if "momentums_bounded ns" for ns lg lg'
    using that check_for_fork_registry [of ns]
    by (cases "check_for_fork ns") (auto simp: completion_bounded_def split: sum.splits)
  show ?thesis
    unfolding accept_momentum_def Let_def
    using b b1 cf [OF b3]
    by (auto simp: completion_bounded_def split: sum.splits option.splits)
qed

lemma receive_message_bounded:
  assumes b: "momentums_bounded nodes"
  shows "completion_bounded (receive_message ev k node nodes)"
proof -
  have b1: "momentums_bounded (upd_node k (\<lambda>node. node\<lparr>last_message_time := t\<rparr>) nodes)" for t
    by (rule upd_node_field_bounded [OF b]) simp
  show ?thesis
    unfolding receive_message_def Let_def
    using b b1 accept_momentum_bounded [OF b1]
    by (auto simp: completion_bounded_def split: sum.splits option.splits)
qed

lemma poll_node_bounded:
  assumes b: "momentums_bounded nodes" and n: "length (momentums node) \<le> 5"
  shows "completion_bounded (poll_node ev k logged1 node nodes)"
proof -
  obtain logged2 node2 where h: "check_connection_health (health_time ev) node = (logged2, node2)"
    by (cases "check_connection_health (health_time ev) node")
  have "length (momentums node2) \<le> 5"
    using check_connection_health_length [of "health_time ev" node] h n by simp
  then have b2: "momentums_bounded (upd_node k (\<lambda>node. node2) nodes)"
    by (rule upd_node_const_bounded [OF b])
  have r: "completion_bounded (receive_message ev k node2 (upd_node k (\<lambda>node. node2) nodes))"
    by (rule receive_message_bounded [OF b2])
  show ?thesis
    unfolding poll_node_def Let_def h
    using b2 r
    by (auto simp: completion_bounded_def split: completion.splits)
qed

lemma monitor_node_body_bounded:
  assumes b: "momentums_bounded nodes" and n: "length (momentums node) \<le> 5"
    and r: "monitor_node_body ev k node nodes = Inr c"
  shows "completion_bounded c"
proof (cases "shutdown_top ev")
  case True
  then show ?thesis using r by (simp add: monitor_node_body_def)
next
  case False
  show ?thesis
  proof (cases "is_connected node")
    case True
    then have "c = poll_node ev k [] node nodes"
      using r False by (simp add: monitor_node_body_def)
    then show ?thesis using poll_node_bounded [OF b n] by simp
  next
    case nc: False
    show ?thesis
    proof (cases "connect_node (connecting ev) node")
      case None
      then have "c = IllTyped" using r False nc by (simp add: monitor_node_body_def)
      then show ?thesis by (simp add: completion_bounded_def)
    next
      case (Some p)
      obtain logged1 node1 where p: "p = (logged1, node1)" by (cases p)
      have n1: "length (momentums node1) \<le> 5"
        using connect_node_length [OF Some] n p by simp
      have b1: "momentums_bounded (upd_node k (\<lambda>node. node1) nodes)"
        by (rule upd_node_const_bounded [OF b n1])
      have "c = (if \<not> is_connected node1
                 then Returned (logged1 @ [Sleep 5]) (upd_node k (\<lambda>node. node1) nodes)
                 else poll_node ev k logged1 node1 (upd_node k (\<lambda>node. node1) nodes))"
        using r False nc Some p by (auto simp: monitor_node_body_def Let_def split: if_splits)
      then show ?thesis
        using b1 poll_node_bounded [OF b1 n1] by (simp add: completion_bounded_def)
    qed
  qed
qed

lemma monitor_node_iteration_bounded:
  assumes b: "momentums_bounded nodes"
  shows "case monitor_node_iteration ev k nodes of
           Next logged nodes' \<Rightarrow> momentums_bounded nodes'
         | Break logged nodes' \<Rightarrow> momentums_bounded nodes'
         | Escaped e logged nodes' \<Rightarrow> momentums_bounded nodes'
         | OutsideModel \<Rightarrow> True"
proof (cases "map_of nodes k")
  case None
  then show ?thesis using b by (simp add: monitor_node_iteration_def)
next
  case (Some node)
  have n: "length (momentums node) \<le> 5" by (rule member_bounded [OF b Some])
  show ?thesis
  proof (cases "monitor_node_body ev k node nodes")
    case (Inl logged)
    then show ?thesis using b Some by (simp add: monitor_node_iteration_def)
  next
    case (Inr c)
    have cb: "completion_bounded c" by (rule monitor_node_body_bounded [OF b n Inr])
    show ?thesis
    proof (cases c)
      case (Returned logged nodes')
      then show ?thesis using cb Some Inr
        by (simp add: monitor_node_iteration_def completion_bounded_def)
    next
      case (Raised e logged nodes')
      then have b': "momentums_bounded nodes'" using cb by (simp add: completion_bounded_def)
      have "momentums_bounded (upd_node k (\<lambda>node. node\<lparr>is_connected := False\<rparr>) nodes')"
        by (rule upd_node_field_bounded [OF b']) simp
      then show ?thesis using b' Some Inr Raised
        by (simp add: monitor_node_iteration_def)
    next
      case IllTyped
      then show ?thesis using Some Inr by (simp add: monitor_node_iteration_def)
    qed
  qed
qed

lemma run_bounded:
  "momentums_bounded nodes \<Longrightarrow> run schedule nodes = Some nodes' \<Longrightarrow> momentums_bounded nodes'"
proof (induction schedule arbitrary: nodes)
  case Nil
  then show ?case by simp
next
  case (Cons step rest)
  obtain k ev where step: "step = (k, ev)" by (cases step)
  show ?case
    using Cons.prems monitor_node_iteration_bounded [OF Cons.prems(1), of ev k] Cons.IH
    unfolding step
    by (cases "monitor_node_iteration ev k nodes") auto
qed

lemma init_bounded: "momentums_bounded ForkMonitor_init"
  by (simp add: momentums_bounded_def ForkMonitor_init_def NodeState_init_def)

section \<open>Properties of the monitoring loop\<close>

lemmas loop_defs =
  monitor_node_iteration_def monitor_node_body_def poll_node_def receive_message_def
  accept_momentum_def first_result_def json_loads_def connect_node_def connect_failed_def
  check_connection_health_def handle_disconnection_def update_momentums_def upd_node_def
  MESSAGE_TIMEOUT_def Let_def

lemmas example_defs =
  answers_def monitored_def held_def NodeState_init_def ForkMonitor_init_def
  subscription_ack_def momentum_notification_def empty_notification_def other_message_def
  full_node_def

lemma upd_node_absent:
  "k \<notin> set (map fst nodes) \<Longrightarrow> upd_node k f nodes = nodes"
  unfolding upd_node_def by (induction nodes) auto

lemma upd_node_same:
  "distinct (map fst nodes) \<Longrightarrow> map_of nodes k = Some node \<Longrightarrow>
   upd_node k (\<lambda>n. node) nodes = nodes"
proof (induction nodes)
  case Nil
  then show ?case by simp
next
  case (Cons p rest)
  obtain k' n' where p: "p = (k', n')" by (cases p)
  show ?case
  proof (cases "k' = k")
    case True
    then have "n' = node" using Cons.prems(2) p by simp
    moreover have "k \<notin> set (map fst rest)" using Cons.prems(1) p True by simp
    then have "upd_node k (\<lambda>n. node) rest = rest" by (rule upd_node_absent)
    ultimately show ?thesis using p True by (simp add: upd_node_def)
  next
    case False
    then have "map_of rest k = Some node" using Cons.prems(2) p by simp
    moreover have "distinct (map fst rest)" using Cons.prems(1) by simp
    ultimately have "upd_node k (\<lambda>n. node) rest = rest" by (rule Cons.IH [rotated])
    then show ?thesis using p False by (simp add: upd_node_def)
  qed
qed

lemma map_of_upd_node:
  "map_of (upd_node k f nodes) k = map_option f (map_of nodes k)"
  unfolding upd_node_def by (induction nodes) auto

text \<open>
  Claim C7. \<^verbatim>\<open>update_momentums\<close> leaves at most five momentums; on a node that holds
  five it drops the first, which is the oldest, keeps the other four in their order and
  puts the new one last; on a node that holds fewer it only appends. And in every run of
  the monitor from its initial registry, every node holds at most five momentums after
  every iteration.
\<close>

theorem momentums_at_most_five_oldest_evicted:
  "length (momentums (update_momentums h x now node)) \<le> 5 \<and>
   (length (momentums node) = 5 \<longrightarrow>
      momentums (update_momentums h x now node) =
        tl (momentums node) @ [\<lparr>height = h, hash = x, timestamp = now, is_stale = False\<rparr>]) \<and>
   (length (momentums node) < 5 \<longrightarrow>
      momentums (update_momentums h x now node) =
        momentums node @ [\<lparr>height = h, hash = x, timestamp = now, is_stale = False\<rparr>]) \<and>
   (run schedule ForkMonitor_init = Some nodes \<longrightarrow> momentums_bounded nodes)"
  using update_momentums_length [of h x now node] update_momentums_full [of node h x now]
    update_momentums_room [of node h x now] run_bounded [OF init_bounded, of schedule nodes]
  by blast

text \<open>
  The theorem at a node that holds the momentums of heights 1 to 5 and receives the one
  of height 6, and at the run in which the first node connects and receives two
  notifications.
\<close>

theorem momentums_at_most_five_oldest_evicted_witness:
  "length (momentums full_node) = 5 \<and>
   map (\<lambda>momentum. height momentum) (momentums (update_momentums 6 ''H'' 7 full_node)) =
     [2, 3, 4, 5, 6] \<and>
   run [(''hc1'', answers 1 (Inr (momentum_notification 102 ''H3''))),
        (''hc1'', answers 2 (Inr (momentum_notification 103 ''H4'')))] ForkMonitor_init =
     Some [(''hc1'', \<lparr>websocket = Some \<lparr>ws_closed = False\<rparr>, subscription_id = Some ''sub-1'',
              last_height = Some 103, last_hash = Some ''H4'', is_connected = True,
              last_message_time = 2,
              momentums =
                [\<lparr>height = 102, hash = ''H3'', timestamp = 1, is_stale = False\<rparr>,
                 \<lparr>height = 103, hash = ''H4'', timestamp = 2, is_stale = False\<rparr>]\<rparr>),
           (''zenonhub'', NodeState_init), (''atsocy'', NodeState_init)] \<and>
   momentums_bounded
     [(''hc1'', \<lparr>websocket = Some \<lparr>ws_closed = False\<rparr>, subscription_id = Some ''sub-1'',
              last_height = Some 103, last_hash = Some ''H4'', is_connected = True,
              last_message_time = 2,
              momentums =
                [\<lparr>height = 102, hash = ''H3'', timestamp = 1, is_stale = False\<rparr>,
                 \<lparr>height = 103, hash = ''H4'', timestamp = 2, is_stale = False\<rparr>]\<rparr>),
           (''zenonhub'', NodeState_init), (''atsocy'', NodeState_init)]"
proof -
  have full: "length (momentums full_node) = 5"
    by (simp add: full_node_def NodeState_init_def)
  have r: "run [(''hc1'', answers 1 (Inr (momentum_notification 102 ''H3''))),
        (''hc1'', answers 2 (Inr (momentum_notification 103 ''H4'')))] ForkMonitor_init =
     Some [(''hc1'', \<lparr>websocket = Some \<lparr>ws_closed = False\<rparr>, subscription_id = Some ''sub-1'',
              last_height = Some 103, last_hash = Some ''H4'', is_connected = True,
              last_message_time = 2,
              momentums =
                [\<lparr>height = 102, hash = ''H3'', timestamp = 1, is_stale = False\<rparr>,
                 \<lparr>height = 103, hash = ''H4'', timestamp = 2, is_stale = False\<rparr>]\<rparr>),
           (''zenonhub'', NodeState_init), (''atsocy'', NodeState_init)]"
    by (simp add: loop_defs example_defs check_for_fork_def)
  have t: "tl (momentums full_node) @
        [\<lparr>height = 6, hash = ''H'', timestamp = 7, is_stale = False\<rparr>] =
      map (\<lambda>h. \<lparr>height = h, hash = ''H'', timestamp = (if h = 6 then 7 else 0),
                  is_stale = False\<rparr>) [2, 3, 4, 5, 6]"
    by (simp add: full_node_def NodeState_init_def)
  have e: "momentums (update_momentums 6 ''H'' 7 full_node) =
      tl (momentums full_node) @ [\<lparr>height = 6, hash = ''H'', timestamp = 7, is_stale = False\<rparr>]"
    using momentums_at_most_five_oldest_evicted [of 6 "''H''" 7 full_node] full by blast
  have b: "momentums_bounded
     [(''hc1'', \<lparr>websocket = Some \<lparr>ws_closed = False\<rparr>, subscription_id = Some ''sub-1'',
              last_height = Some 103, last_hash = Some ''H4'', is_connected = True,
              last_message_time = 2,
              momentums =
                [\<lparr>height = 102, hash = ''H3'', timestamp = 1, is_stale = False\<rparr>,
                 \<lparr>height = 103, hash = ''H4'', timestamp = 2, is_stale = False\<rparr>]\<rparr>),
           (''zenonhub'', NodeState_init), (''atsocy'', NodeState_init)]"
    using momentums_at_most_five_oldest_evicted [of 6 "''H''" 7 full_node _ _] r by blast
  have m: "map (\<lambda>momentum. height momentum) (momentums (update_momentums 6 ''H'' 7 full_node)) =
     [2, 3, 4, 5, 6]"
    unfolding e t by simp
  show ?thesis using full m r b by blast
qed

text \<open>
  The branch the loop has for a message of an unexpected format, lines 228 and 229. For
  a connected node of a registry with distinct keys, with a handle, no shutdown
  signalled and the health check passing: a message that decodes to a value on which the
  guard \<^verbatim>\<open>'params' in data and 'result' in data['params']\<close> is false is answered by
  the warning "Unexpected message format" and nothing else; the registry is the one
  before the iteration but for the node's \<^verbatim>\<open>last_message_time\<close>, so the node is still
  connected, with its handle, its subscription and its momentums.
\<close>

lemma else_branch_logs_and_discards:
  assumes keys: "distinct (map fst nodes)"
    and node: "map_of nodes node_name = Some node"
    and conn: "is_connected node"
    and ws: "websocket node \<noteq> None"
    and up: "\<not> shutdown_top ev"
    and fresh: "\<not> health_time ev - last_message_time node > 30"
    and msg: "received ev = Inr response"
    and json: "json_loads response = Inr data"
    and guard: "first_result data = Inr None"
  shows "monitor_node_iteration ev node_name nodes =
           Next [Log WARNING ''Unexpected message format from {node_name}: {response}'']
             (upd_node node_name (\<lambda>node. node\<lparr>last_message_time := received_time ev\<rparr>) nodes) \<and>
         map_of (upd_node node_name (\<lambda>node. node\<lparr>last_message_time := received_time ev\<rparr>) nodes)
             node_name = Some (node\<lparr>last_message_time := received_time ev\<rparr>)"
proof -
  have h: "check_connection_health (health_time ev) node = ([], node)"
    using conn fresh by (simp add: check_connection_health_def MESSAGE_TIMEOUT_def)
  have same: "upd_node node_name (\<lambda>n. node) nodes = nodes"
    by (rule upd_node_same [OF keys node])
  obtain w where w: "websocket node = Some w" using ws by auto
  have r: "receive_message ev node_name node nodes =
      Returned [Log WARNING ''Unexpected message format from {node_name}: {response}'']
        (upd_node node_name (\<lambda>node. node\<lparr>last_message_time := received_time ev\<rparr>) nodes)"
    by (simp add: receive_message_def w msg json guard)
  have p: "poll_node ev node_name [] node nodes =
      Returned [Log WARNING ''Unexpected message format from {node_name}: {response}'']
        (upd_node node_name (\<lambda>node. node\<lparr>last_message_time := received_time ev\<rparr>) nodes)"
    by (simp add: poll_node_def h same conn r)
  have b: "monitor_node_body ev node_name node nodes = Inr (poll_node ev node_name [] node nodes)"
    using up conn by (simp add: monitor_node_body_def)
  have "monitor_node_iteration ev node_name nodes =
           Next [Log WARNING ''Unexpected message format from {node_name}: {response}'']
             (upd_node node_name (\<lambda>node. node\<lparr>last_message_time := received_time ev\<rparr>) nodes)"
    by (simp add: monitor_node_iteration_def node b p)
  then show ?thesis by (simp add: map_of_upd_node node)
qed

text \<open>The else branch at a message without \<^verbatim>\<open>params\<close>, received by the connected node.\<close>

lemma else_branch_logs_and_discards_example:
  "distinct (map fst monitored) \<and> map_of monitored ''hc1'' = Some held \<and>
   is_connected held \<and> websocket held \<noteq> None \<and>
   first_result other_message = Inr None \<and>
   monitor_node_iteration (answers 1001 (Inr (Encodes other_message))) ''hc1'' monitored =
     Next [Log WARNING ''Unexpected message format from {node_name}: {response}'']
       [(''hc1'', held\<lparr>last_message_time := 1001\<rparr>),
        (''zenonhub'', NodeState_init), (''atsocy'', NodeState_init)]"
proof -
  have keys: "distinct (map fst monitored)"
    and node: "map_of monitored ''hc1'' = Some held"
    by (simp_all add: monitored_def)
  have conn: "is_connected held" and ws: "websocket held \<noteq> None"
    by (simp_all add: held_def)
  have up: "\<not> shutdown_top (answers 1001 (Inr (Encodes other_message)))"
    and fresh: "\<not> health_time (answers 1001 (Inr (Encodes other_message))) -
                  last_message_time held > 30"
    and msg: "received (answers 1001 (Inr (Encodes other_message))) = Inr (Encodes other_message)"
    and time: "received_time (answers 1001 (Inr (Encodes other_message))) = 1001"
    by (simp_all add: answers_def held_def)
  have json: "json_loads (Encodes other_message) = Inr other_message"
    by (simp add: json_loads_def)
  have guard: "first_result other_message = Inr None"
    by (simp add: first_result_def other_message_def)
  have u: "upd_node ''hc1''
        (\<lambda>node. node\<lparr>last_message_time :=
           received_time (answers 1001 (Inr (Encodes other_message)))\<rparr>) monitored =
      [(''hc1'', held\<lparr>last_message_time := 1001\<rparr>),
       (''zenonhub'', NodeState_init), (''atsocy'', NodeState_init)]"
    unfolding time by (simp add: upd_node_def monitored_def)
  have "monitor_node_iteration (answers 1001 (Inr (Encodes other_message))) ''hc1'' monitored =
     Next [Log WARNING ''Unexpected message format from {node_name}: {response}'']
       [(''hc1'', held\<lparr>last_message_time := 1001\<rparr>),
        (''zenonhub'', NodeState_init), (''atsocy'', NodeState_init)]"
    using else_branch_logs_and_discards [OF keys node conn ws up fresh msg json guard]
    unfolding u by blast
  then show ?thesis using keys node conn ws guard by blast
qed

text \<open>
  Claim C4 at a notification whose \<^verbatim>\<open>params.result\<close> is an empty sequence, received
  by a connected node. The message does not have the expected shape, yet the guard of
  line 221 lets it pass, since it looks for the key \<^verbatim>\<open>result\<close> only; \<^verbatim>\<open>[0]\<close> then
  raises \<^verbatim>\<open>IndexError\<close>, and instead of the warning of the else branch the handler of
  the loop logs an error, sets \<^verbatim>\<open>is_connected = False\<close> and sleeps: the one malformed
  message has cost the node its connection.
\<close>

theorem unexpected_message_disconnects:
  "\<not> expected_notification empty_notification \<and>
   map_of monitored ''hc1'' = Some held \<and> is_connected held \<and>
   monitor_node_iteration (answers 1001 (Inr (Encodes empty_notification))) ''hc1'' monitored =
     Next [Log ERROR ''Error monitoring {node_name} node: {e}'', Sleep 5]
       [(''hc1'', held\<lparr>last_message_time := 1001, is_connected := False\<rparr>),
        (''zenonhub'', NodeState_init), (''atsocy'', NodeState_init)]"
  by (simp add: expected_notification_def loop_defs example_defs)

text \<open>
  Claim C5 at a connected node whose \<^verbatim>\<open>recv\<close> raises \<^verbatim>\<open>ConnectionClosed\<close>: the
  handler of the loop sets \<^verbatim>\<open>is_connected = False\<close> and sleeps, without calling
  \<^verbatim>\<open>handle_disconnection\<close>. During the sleep the node still has its subscription id and
  its handle, and none of its momentums is stale.
\<close>

theorem connection_closed_skips_disconnection_handling:
  "map_of monitored ''hc1'' = Some held \<and> is_connected held \<and>
   monitor_node_iteration (answers 1001 (Inl ConnectionClosed)) ''hc1'' monitored =
     Next [Log WARNING ''Connection to {node_name} node closed. Attempting to reconnect...'',
           Sleep 5]
       [(''hc1'', held\<lparr>is_connected := False\<rparr>),
        (''zenonhub'', NodeState_init), (''atsocy'', NodeState_init)] \<and>
   subscription_id (held\<lparr>is_connected := False\<rparr>) = Some ''sub-1'' \<and>
   websocket (held\<lparr>is_connected := False\<rparr>) = Some \<lparr>ws_closed = False\<rparr> \<and>
   list_all (\<lambda>momentum. \<not> is_stale momentum) (momentums (held\<lparr>is_connected := False\<rparr>)) \<and>
   snd (handle_disconnection held) \<noteq> held\<lparr>is_connected := False\<rparr>"
  by (simp add: loop_defs example_defs)

text \<open>
  The sibling path: when the wait for the subscription acknowledgement ends in an
  exception, \<^verbatim>\<open>connect_node\<close> does call \<^verbatim>\<open>handle_disconnection\<close>, on the node with the
  new handle.
\<close>

lemma connect_node_ack_failure:
  assumes "ws_connect c = Inr w" and "ws_send c = Inr u" and "ack_recv c = Inl e"
  shows "\<exists>logged. connect_node c node =
           Some (logged, snd (handle_disconnection (node\<lparr>websocket := Some w\<rparr>)))"
  using assms
  by (simp add: connect_node_def connect_failed_def handle_disconnection_def Let_def)

end
